theory Spec2Isabelle
  imports Main
begin

section \<open>The chat input of webview-ui/src/components/ChatTextArea.tsx\<close>

text \<open>
  A shallow embedding of the event handlers of the \<^verbatim>\<open>ChatTextArea\<close> component.
  The component's React state and the props it writes through setters are the fields
  of one record; a handler is a function from the state before the event to the state
  after its batched updates. Calls that leave the component (\<^verbatim>\<open>preventDefault\<close>,
  \<^verbatim>\<open>onSend\<close>, \<^verbatim>\<open>focus\<close>, \<^verbatim>\<open>setSelectionRange\<close>) are appended to a log in the
  order the handler makes them; what the handlers print on the console is left out.

  A JavaScript string is a sequence of UTF-16 code units; \<^typ>\<open>string\<close> is a list of
  8-bit characters, so the model covers the texts whose code units are below 256.
  JavaScript numbers that hold offsets and indices are \<^typ>\<open>int\<close>: \<open>-1\<close> is a value
  the code stores and compares.
\<close>

subsection \<open>JavaScript primitives used by the handlers\<close>

text \<open>\<^verbatim>\<open>xs[i]\<close>: \<^verbatim>\<open>undefined\<close> (here \<open>None\<close>) outside \<open>0 .. length - 1\<close>.\<close>

definition js_nth :: "'a list \<Rightarrow> int \<Rightarrow> 'a option" where
  "js_nth xs i = (if 0 \<le> i \<and> i < int (length xs) then Some (xs ! nat i) else None)"

text \<open>\<^verbatim>\<open>xs.findIndex(p)\<close>: the first index whose element satisfies \<open>p\<close>, or \<open>-1\<close>.\<close>

fun findIndex :: "('a \<Rightarrow> bool) \<Rightarrow> 'a list \<Rightarrow> int" where
  "findIndex p [] = - 1"
| "findIndex p (x # xs) =
     (if p x then 0 else (let r = findIndex p xs in if r = - 1 then - 1 else r + 1))"

text \<open>\<^verbatim>\<open>a % b\<close> on integers: the remainder of the division truncated towards zero.\<close>

definition js_rem :: "int \<Rightarrow> int \<Rightarrow> int" where
  "js_rem a b = sgn a * (\<bar>a\<bar> mod \<bar>b\<bar>)"

text \<open>\<^verbatim>\<open>s.slice(start, end)\<close>: a negative bound counts from the end, both are clamped.\<close>

definition js_slice :: "'a list \<Rightarrow> int \<Rightarrow> int \<Rightarrow> 'a list" where
  "js_slice xs start stop =
     (let len = int (length xs);
          lo = (if start < 0 then max (len + start) 0 else min start len);
          hi = (if stop < 0 then max (len + stop) 0 else min stop len)
      in take (nat (hi - lo)) (drop (nat lo) xs))"

text \<open>
  \<^verbatim>\<open>s.indexOf(c, position)\<close> for a one-character search string: the position is
  clamped to \<open>0 .. length\<close>, the result is the first index at or after it, or \<open>-1\<close>.
\<close>

definition js_indexOf :: "string \<Rightarrow> char \<Rightarrow> int \<Rightarrow> int" where
  "js_indexOf s c position =
     (let k = nat (max 0 (min position (int (length s))));
          r = findIndex (\<lambda>x. x = c) (drop k s)
      in if r = - 1 then - 1 else r + int k)"

text \<open>
  \<^verbatim>\<open>s.lastIndexOf(c, position)\<close> for a one-character search string: the last index
  at or before the position (clamped to \<open>0 .. length\<close>), or \<open>-1\<close>. Without the
  second argument the position is the length.
\<close>

definition js_lastIndexOf_from :: "string \<Rightarrow> char \<Rightarrow> int \<Rightarrow> int" where
  "js_lastIndexOf_from s c position =
     (let k = nat (max 0 (min position (int (length s))));
          ys = take (Suc k) s;
          r = findIndex (\<lambda>x. x = c) (rev ys)
      in if r = - 1 then - 1 else int (length ys) - 1 - r)"

definition js_lastIndexOf :: "string \<Rightarrow> char \<Rightarrow> int" where
  "js_lastIndexOf s c = js_lastIndexOf_from s c (int (length s))"

text \<open>\<^verbatim>\<open>s.split(sep)\<close> for a one-character separator.\<close>

fun js_split :: "char \<Rightarrow> string \<Rightarrow> string list" where
  "js_split sep [] = [[]]"
| "js_split sep (c # cs) =
     (if c = sep then [] # js_split sep cs
      else (case js_split sep cs of [] \<Rightarrow> [[c]] | p # ps \<Rightarrow> (c # p) # ps))"

text \<open>\<^verbatim>\<open>s.toLowerCase()\<close> on code units below 256 (ASCII and Latin-1 capitals).\<close>

definition lowerChar :: "char \<Rightarrow> char" where
  "lowerChar c =
     (let n = (of_char c :: nat)
      in if (65 \<le> n \<and> n \<le> 90) \<or> (192 \<le> n \<and> n \<le> 222 \<and> n \<noteq> 215)
         then char_of (n + 32) else c)"

definition toLowerCase :: "string \<Rightarrow> string" where
  "toLowerCase s = map lowerChar s"

text \<open>\<^verbatim>\<open>s.endsWith(t)\<close>.\<close>

definition endsWith :: "string \<Rightarrow> string \<Rightarrow> bool" where
  "endsWith s t = (length t \<le> length s \<and> drop (length s - length t) s = t)"

subsection \<open>The regular expression of the backspace handler\<close>

text \<open>
  \<^verbatim>\<open>/@((?:\/|\w+:\/\/)[^\s]+|problems)$/\<close>: the text ends with \<^verbatim>\<open>@\<close> followed by
  a path that starts with a slash, by a URL with a scheme, or by the word
  \<^verbatim>\<open>problems\<close>. \<^verbatim>\<open>\s\<close> and \<^verbatim>\<open>\w\<close> are given on code units below 256.
\<close>

definition isSpace :: "char \<Rightarrow> bool" where
  "isSpace c = (of_char c \<in> {9, 10, 11, 12, 13, 32, 160 :: nat})"

definition isWord :: "char \<Rightarrow> bool" where
  "isWord c =
     (let n = (of_char c :: nat)
      in (48 \<le> n \<and> n \<le> 57) \<or> (65 \<le> n \<and> n \<le> 90) \<or> (97 \<le> n \<and> n \<le> 122) \<or> n = 95)"

definition nonSpaces :: "string \<Rightarrow> bool" where
  "nonSpaces r = (r \<noteq> [] \<and> list_all (\<lambda>c. \<not> isSpace c) r)"

text \<open>
  What may follow the \<^verbatim>\<open>@\<close> up to the end of the text. A word character is never
  a colon, so \<^verbatim>\<open>\w+\<close> before \<^verbatim>\<open>://\<close> is the whole run of word characters.
\<close>

definition mentionBody :: "string \<Rightarrow> bool" where
  "mentionBody cs =
     ((case cs of [] \<Rightarrow> False | c # r \<Rightarrow> c = CHR ''/'' \<and> nonSpaces r)
      \<or> (let w = takeWhile isWord cs; r = dropWhile isWord cs
          in w \<noteq> [] \<and> take 3 r = ''://'' \<and> nonSpaces (drop 3 r))
      \<or> cs = ''problems'')"

fun mentionAtEnd :: "string \<Rightarrow> bool" where
  "mentionAtEnd [] = False"
| "mentionAtEnd (c # cs) = ((c = CHR ''@'' \<and> mentionBody cs) \<or> mentionAtEnd cs)"

subsection \<open>Data\<close>

text \<open>
  An entry of the context menu. In the source it is an object with the fields
  \<^verbatim>\<open>type\<close> and \<^verbatim>\<open>value\<close>, and the arrow-key handler compares entries with
  \<^verbatim>\<open>===\<close>, by identity. \<open>oid\<close> is the identity of the object: two entries are
  the same object when they are the same record.
\<close>

record menu_option =
  oid :: nat
  otype :: string
  ovalue :: string

text \<open>An entry of \<^verbatim>\<open>searchPaths\<close>: \<^verbatim>\<open>{ type, path }\<close>.\<close>

record search_path =
  ptype :: string
  path :: string

text \<open>
  The keyboard event: \<^verbatim>\<open>event.key\<close>, \<^verbatim>\<open>event.shiftKey\<close> and
  \<^verbatim>\<open>event.nativeEvent?.isComposing\<close>, which is \<open>None\<close> when the native event or
  the field is absent.
\<close>

record key_event =
  key :: string
  shiftKey :: bool
  nativeIsComposing :: "bool option"

datatype effect =
    PreventDefault
  | OnSend
  | Focus
  | SetSelectionRange int int

text \<open>
  The props and the React state of the component. \<open>textAreaRef\<close> is
  \<^verbatim>\<open>textAreaRef.current\<close>: \<open>None\<close> while the element is not mounted, else the
  element's \<^verbatim>\<open>value\<close>.
\<close>

record chat_state =
  inputValue :: string
  selectedImages :: "string list"
  shouldDisableImages :: bool
  filePaths :: "string list"
  textAreaRef :: "string option"
  isTextAreaFocused :: bool
  showContextMenu :: bool
  cursorPosition :: int
  searchQuery :: string
  isMouseDownOnMenu :: bool
  selectedMenuIndex :: int
  selectedType :: "string option"
  justDeletedSpaceAfterMention :: bool
  intendedCursorPosition :: "int option"
  effects :: "effect list"

text \<open>
  The imports of the component that are not part of this file of the repository:
  the four functions of \<^verbatim>\<open>../utils/mention-context\<close> and the constant of
  \<^verbatim>\<open>./ChatView\<close>. The handlers take them as parameters.
\<close>

record env =
  getContextMenuOptions :: "string \<Rightarrow> string option \<Rightarrow> search_path list \<Rightarrow> menu_option list"
  insertMention :: "string \<Rightarrow> int \<Rightarrow> string \<Rightarrow> string"
  removeMention :: "string \<Rightarrow> int \<Rightarrow> string \<times> int"
  shouldShowContextMenu :: "string \<Rightarrow> int \<Rightarrow> bool"
  MAX_IMAGES_PER_MESSAGE :: nat

definition log :: "effect list \<Rightarrow> chat_state \<Rightarrow> chat_state" where
  "log es s = s\<lparr>effects := effects s @ es\<rparr>"

subsection \<open>searchPaths\<close>

definition searchPaths :: "string list \<Rightarrow> search_path list" where
  "searchPaths fps =
     \<lparr>ptype = ''problems'', path = ''problems''\<rparr> #
     map (\<lambda>p. \<lparr>ptype = (if endsWith p ''/'' then ''folder'' else ''file''), path = p\<rparr>)
         (map (\<lambda>file. ''/'' @ file) fps)"

subsection \<open>handleMentionSelect\<close>

text \<open>The value of the variable \<^verbatim>\<open>insertValue\<close> after the chain of tests on the type.\<close>

definition insertValueOf :: "string \<Rightarrow> string \<Rightarrow> string" where
  "insertValueOf type val =
     (if type = ''url'' then val
      else if type = ''file'' \<or> type = ''folder'' then val
      else if type = ''problems'' then ''problems''
      else val)"

definition handleMentionSelect :: "env \<Rightarrow> chat_state \<Rightarrow> string \<Rightarrow> string \<Rightarrow> chat_state" where
  "handleMentionSelect e s type val =
     (if val = ''file'' \<or> val = ''folder''
      then s\<lparr>selectedType := Some (toLowerCase type), searchQuery := '''', selectedMenuIndex := 0\<rparr>
      else
        (let s1 = s\<lparr>showContextMenu := False, selectedType := None\<rparr>
         in case textAreaRef s of
              None \<Rightarrow> s1
            | Some domValue \<Rightarrow>
                (let newValue = insertMention e domValue (cursorPosition s) (insertValueOf type val);
                     newCursorPosition =
                       js_indexOf newValue CHR '' '' (js_lastIndexOf newValue CHR ''@'') + 1
                 in log [Focus]
                      (s1\<lparr>inputValue := newValue,
                          cursorPosition := newCursorPosition,
                          intendedCursorPosition := Some newCursorPosition\<rparr>))))"

subsection \<open>handleKeyDown\<close>

text \<open>
  The updater that the arrow keys pass to \<^verbatim>\<open>setSelectedMenuIndex\<close>, with the direction
  and the list that \<^verbatim>\<open>getContextMenuOptions\<close> returns.
\<close>

definition arrowIndex :: "int \<Rightarrow> menu_option list \<Rightarrow> int \<Rightarrow> int" where
  "arrowIndex direction options prevIndex =
     (if length options = 0 then prevIndex
      else
        (let selectableOptions = filter (\<lambda>option. otype option \<noteq> ''url'') options
         in if length selectableOptions = 0 then - 1
            else
              (let currentSelectableIndex =
                     findIndex (\<lambda>option. Some option = js_nth options prevIndex) selectableOptions;
                   newSelectableIndex =
                     js_rem (currentSelectableIndex + direction + int (length selectableOptions))
                            (int (length selectableOptions))
               in findIndex (\<lambda>option. Some option = js_nth selectableOptions newSelectableIndex)
                    options)))"

definition isComposing :: "key_event \<Rightarrow> bool" where
  "isComposing ev = (case nativeIsComposing ev of None \<Rightarrow> False | Some b \<Rightarrow> b)"

text \<open>
  The two character tests of the backspace branch. A character of the text is one
  code unit, so the comparison with the two-unit string \<^verbatim>\<open>"\r\n"\<close> is never true.
\<close>

definition isWhitespaceChar :: "char option \<Rightarrow> bool" where
  "isWhitespaceChar c = (c = Some CHR '' '' \<or> c = Some (CHR 0x0A))"

text \<open>The body of the test \<^verbatim>\<open>event.key === "Backspace" && !isComposing\<close>.\<close>

definition backspace :: "env \<Rightarrow> chat_state \<Rightarrow> chat_state" where
  "backspace e s =
     (let charBeforeCursor = js_nth (inputValue s) (cursorPosition s - 1);
          charAfterCursor = js_nth (inputValue s) (cursorPosition s + 1);
          charBeforeIsWhitespace = isWhitespaceChar charBeforeCursor;
          charAfterIsWhitespace = isWhitespaceChar charAfterCursor
      in if charBeforeIsWhitespace
            \<and> mentionAtEnd (js_slice (inputValue s) 0 (cursorPosition s - 1))
         then
           (let newCursorPosition = cursorPosition s - 1;
                s1 = (if \<not> charAfterIsWhitespace
                      then (log (PreventDefault #
                                 (case textAreaRef s of
                                    None \<Rightarrow> []
                                  | Some _ \<Rightarrow> [SetSelectionRange newCursorPosition newCursorPosition]))
                              s)\<lparr>cursorPosition := newCursorPosition\<rparr>
                      else s)
            in s1\<lparr>cursorPosition := newCursorPosition, justDeletedSpaceAfterMention := True\<rparr>)
         else if justDeletedSpaceAfterMention s then
           (let (newText, newPosition) = removeMention e (inputValue s) (cursorPosition s);
                s1 = (if newText \<noteq> inputValue s
                      then (log [PreventDefault] s)
                             \<lparr>inputValue := newText, intendedCursorPosition := Some newPosition\<rparr>
                      else s)
            in s1\<lparr>justDeletedSpaceAfterMention := False, showContextMenu := False\<rparr>)
         else s\<lparr>justDeletedSpaceAfterMention := False\<rparr>)"

definition handleKeyDown :: "env \<Rightarrow> chat_state \<Rightarrow> key_event \<Rightarrow> chat_state" where
  "handleKeyDown e s ev =
     (if showContextMenu s \<and> key ev = ''Escape''
      then s\<lparr>selectedType := None, selectedMenuIndex := 3\<rparr>
      else if showContextMenu s \<and> (key ev = ''ArrowUp'' \<or> key ev = ''ArrowDown'')
      then (log [PreventDefault] s)
             \<lparr>selectedMenuIndex :=
                arrowIndex (if key ev = ''ArrowUp'' then - 1 else 1)
                  (getContextMenuOptions e (searchQuery s) (selectedType s)
                     (searchPaths (filePaths s)))
                  (selectedMenuIndex s)\<rparr>
      else if showContextMenu s \<and> key ev = ''Enter'' \<and> selectedMenuIndex s \<noteq> - 1
      then
        (case js_nth (getContextMenuOptions e (searchQuery s) (selectedType s)
                        (searchPaths (filePaths s)))
                     (selectedMenuIndex s) of
           None \<Rightarrow> log [PreventDefault] s
         | Some selectedOption \<Rightarrow>
             if otype selectedOption \<noteq> ''url''
             then handleMentionSelect e (log [PreventDefault] s)
                    (otype selectedOption) (ovalue selectedOption)
             else log [PreventDefault] s)
      else
        (let s1 = (if key ev = ''Enter'' \<and> \<not> shiftKey ev \<and> \<not> isComposing ev
                   then log [PreventDefault, OnSend] s else s)
         in if key ev = ''Backspace'' \<and> \<not> isComposing ev then backspace e s1 else s1))"

subsection \<open>handleInputChange, handleBlur, handleClickOutside, updateCursorPosition\<close>

text \<open>
  \<open>newValue\<close> and \<open>newCursorPosition\<close> are \<^verbatim>\<open>e.target.value\<close> and
  \<^verbatim>\<open>e.target.selectionStart\<close> of the change event.
\<close>

definition handleInputChange :: "env \<Rightarrow> chat_state \<Rightarrow> string \<Rightarrow> int \<Rightarrow> chat_state" where
  "handleInputChange e s newValue newCursorPosition =
     (let s1 = s\<lparr>inputValue := newValue, cursorPosition := newCursorPosition\<rparr>;
          showMenu = shouldShowContextMenu e newValue newCursorPosition;
          s2 = s1\<lparr>showContextMenu := showMenu\<rparr>
      in if showMenu then
           (let lastAtIndex = js_lastIndexOf_from newValue CHR ''@'' (newCursorPosition - 1);
                query = js_slice newValue (lastAtIndex + 1) newCursorPosition
            in s2\<lparr>searchQuery := query,
                   selectedMenuIndex := (if length query > 0 then 0 else 3)\<rparr>)
         else s2\<lparr>searchQuery := [], selectedMenuIndex := - 1\<rparr>)"

definition handleBlur :: "chat_state \<Rightarrow> chat_state" where
  "handleBlur s =
     (if \<not> isMouseDownOnMenu s then s\<lparr>showContextMenu := False\<rparr> else s)
       \<lparr>isTextAreaFocused := False\<rparr>"

text \<open>
  The listener is on the document only while the menu is shown, and the menu's
  container exists exactly then; \<open>targetInMenu\<close> is
  \<^verbatim>\<open>contextMenuContainerRef.current.contains(event.target)\<close>.
\<close>

definition handleClickOutside :: "chat_state \<Rightarrow> bool \<Rightarrow> chat_state" where
  "handleClickOutside s targetInMenu =
     (if showContextMenu s \<and> \<not> targetInMenu then s\<lparr>showContextMenu := False\<rparr> else s)"

text \<open>\<open>selectionStart\<close> is the caret offset the element reports.\<close>

definition updateCursorPosition :: "chat_state \<Rightarrow> int \<Rightarrow> chat_state" where
  "updateCursorPosition s selectionStart =
     (case textAreaRef s of None \<Rightarrow> s | Some _ \<Rightarrow> s\<lparr>cursorPosition := selectionStart\<rparr>)"

definition handleKeyUp :: "chat_state \<Rightarrow> string \<Rightarrow> int \<Rightarrow> chat_state" where
  "handleKeyUp s k selectionStart =
     (if k \<in> set [''ArrowLeft'', ''ArrowRight'', ''ArrowUp'', ''ArrowDown'', ''Home'', ''End'']
      then updateCursorPosition s selectionStart else s)"

subsection \<open>handlePaste\<close>

text \<open>
  A clipboard entry: its \<^verbatim>\<open>type\<close>, and what \<^verbatim>\<open>getAsFile()\<close> gives, \<open>None\<close> for
  \<^verbatim>\<open>null\<close> and otherwise a blob, which is given by what the file reader ends
  with when it reads it: an error, a string, or a result that is not a string.
\<close>

datatype read_result = ReadError | ReadString string | ReadOther

record clipboard_item =
  itype :: string
  getAsFile :: "read_result option"

definition acceptedTypes :: "string list" where
  "acceptedTypes = [''png'', ''jpeg'', ''webp'']"

text \<open>
  \<^verbatim>\<open>const [type, subtype] = item.type.split("/")\<close>: the first two pieces; a
  missing second piece is \<^verbatim>\<open>undefined\<close>, which the accepted list does not include.
\<close>

definition isImageItem :: "clipboard_item \<Rightarrow> bool" where
  "isImageItem item =
     (case js_split CHR ''/'' (itype item) of
        type # subtype # _ \<Rightarrow> type = ''image'' \<and> subtype \<in> set acceptedTypes
      | _ \<Rightarrow> False)"

text \<open>The promise of one entry resolves to a data URL or to \<^verbatim>\<open>null\<close>.\<close>

definition readItem :: "clipboard_item \<Rightarrow> string option" where
  "readItem item =
     (case getAsFile item of
        None \<Rightarrow> None
      | Some ReadError \<Rightarrow> None
      | Some (ReadString result) \<Rightarrow> Some result
      | Some ReadOther \<Rightarrow> None)"

text \<open>
  The handler waits for all promises and then passes an updater to
  \<^verbatim>\<open>setSelectedImages\<close>; \<open>selectedImages s\<close> is the list the updater receives.
\<close>

definition handlePaste :: "env \<Rightarrow> chat_state \<Rightarrow> clipboard_item list \<Rightarrow> chat_state" where
  "handlePaste e s items =
     (let imageItems = filter isImageItem items
      in if \<not> shouldDisableImages s \<and> length imageItems > 0 then
           (let s1 = log [PreventDefault] s;
                imageDataArray = map readItem imageItems;
                dataUrls = List.map_filter (\<lambda>dataUrl. dataUrl) imageDataArray
            in if length dataUrls > 0
               then s1\<lparr>selectedImages :=
                        take (MAX_IMAGES_PER_MESSAGE e) (selectedImages s1 @ dataUrls)\<rparr>
               else s1)
         else s)"

subsection \<open>Effects after a render, and the component as a transition system\<close>

text \<open>
  After the updates of a handler are committed the element shows the new
  \<^verbatim>\<open>inputValue\<close> (it is a controlled element), and React runs the effects whose
  dependencies changed: the layout effect on \<^verbatim>\<open>[inputValue, intendedCursorPosition]\<close>
  and the effect on \<^verbatim>\<open>[showContextMenu]\<close>. \<open>prev\<close> is the state of the render
  before.
\<close>

definition layoutEffect :: "chat_state \<Rightarrow> chat_state \<Rightarrow> chat_state" where
  "layoutEffect prev s =
     (if inputValue prev \<noteq> inputValue s \<or> intendedCursorPosition prev \<noteq> intendedCursorPosition s
      then (case (intendedCursorPosition s, textAreaRef s) of
              (Some p, Some _) \<Rightarrow> (log [SetSelectionRange p p] s)\<lparr>intendedCursorPosition := None\<rparr>
            | _ \<Rightarrow> s)
      else s)"

definition menuEffect :: "chat_state \<Rightarrow> chat_state \<Rightarrow> chat_state" where
  "menuEffect prev s =
     (if showContextMenu prev \<noteq> showContextMenu s
      then (if \<not> showContextMenu s then s\<lparr>selectedType := None\<rparr> else s)
      else s)"

definition commit :: "chat_state \<Rightarrow> chat_state \<Rightarrow> chat_state" where
  "commit prev s =
     menuEffect prev
       (layoutEffect prev
          (s\<lparr>textAreaRef := (case textAreaRef s of None \<Rightarrow> None | Some _ \<Rightarrow> Some (inputValue s))\<rparr>))"

text \<open>
  The events of the component. The context menu is rendered only while
  \<^verbatim>\<open>showContextMenu\<close> holds, so its three callbacks (\<^verbatim>\<open>onSelect\<close>,
  \<^verbatim>\<open>setSelectedIndex\<close>, \<^verbatim>\<open>onMouseDown\<close>) can fire only then.
\<close>

datatype event =
    KeyDown key_event
  | KeyUp string int
  | InputChange string int
  | SelectionChange int
  | FocusEvent
  | BlurEvent
  | Paste "clipboard_item list"
  | DocumentMouseDown bool
  | MenuSelect string string
  | MenuSetSelectedIndex int
  | MenuMouseDown

definition handler :: "env \<Rightarrow> chat_state \<Rightarrow> event \<Rightarrow> chat_state" where
  "handler e s ev =
     (case ev of
        KeyDown k \<Rightarrow> handleKeyDown e s k
      | KeyUp k selectionStart \<Rightarrow> handleKeyUp s k selectionStart
      | InputChange newValue newCursorPosition \<Rightarrow>
          handleInputChange e (s\<lparr>textAreaRef := Some newValue\<rparr>) newValue newCursorPosition
      | SelectionChange selectionStart \<Rightarrow> updateCursorPosition s selectionStart
      | FocusEvent \<Rightarrow> s\<lparr>isTextAreaFocused := True\<rparr>
      | BlurEvent \<Rightarrow> handleBlur s
      | Paste items \<Rightarrow> handlePaste e s items
      | DocumentMouseDown targetInMenu \<Rightarrow> handleClickOutside s targetInMenu
      | MenuSelect type val \<Rightarrow> (if showContextMenu s then handleMentionSelect e s type val else s)
      | MenuSetSelectedIndex i \<Rightarrow> (if showContextMenu s then s\<lparr>selectedMenuIndex := i\<rparr> else s)
      | MenuMouseDown \<Rightarrow> (if showContextMenu s then s\<lparr>isMouseDownOnMenu := True\<rparr> else s))"

definition step :: "env \<Rightarrow> chat_state \<Rightarrow> event \<Rightarrow> chat_state" where
  "step e s ev = commit s (handler e s ev)"

definition run :: "env \<Rightarrow> chat_state \<Rightarrow> event list \<Rightarrow> chat_state" where
  "run e s evs = foldl (step e) s evs"

text \<open>The state of the first render: the defaults of the \<^verbatim>\<open>useState\<close> calls.\<close>

definition initialState :: "string \<Rightarrow> string list \<Rightarrow> bool \<Rightarrow> string list \<Rightarrow> chat_state" where
  "initialState text images disableImages fps =
     \<lparr>inputValue = text, selectedImages = images, shouldDisableImages = disableImages,
      filePaths = fps, textAreaRef = Some text, isTextAreaFocused = False,
      showContextMenu = False, cursorPosition = 0, searchQuery = [],
      isMouseDownOnMenu = False, selectedMenuIndex = - 1, selectedType = None,
      justDeletedSpaceAfterMention = False, intendedCursorPosition = None, effects = []\<rparr>"

subsection \<open>The functions of utils/mention-context, after the specification\<close>

text \<open>
  Modelled from the spec: \<^verbatim>\<open>insertMention\<close> of \<^verbatim>\<open>../utils/mention-context\<close>, which
  is not among the sources. Section 4.4: it replaces the in-progress \<^verbatim>\<open>@query\<close>
  span that ends at the cursor with \<^verbatim>\<open>@insertValue\<close> and one space; section 7: on
  a text without that span it returns the input unchanged.
\<close>

definition insertMention_spec :: "string \<Rightarrow> int \<Rightarrow> string \<Rightarrow> string" where
  "insertMention_spec text cursor insertValue =
     (let beforeCursor = js_slice text 0 cursor;
          afterCursor = drop (length beforeCursor) text;
          lastAtIndex = js_lastIndexOf beforeCursor CHR ''@''
      in if lastAtIndex = - 1 then text
         else take (nat lastAtIndex) beforeCursor @ ''@'' @ insertValue @ '' '' @ afterCursor)"

text \<open>
  Modelled from the spec: the start of the mention token adjacent to the cursor that
  \<^verbatim>\<open>removeMention\<close>, which is not among the sources, deletes (section 4.4): the
  offset of the leftmost \<^verbatim>\<open>@\<close> from which a mention runs to the end.
\<close>

fun mentionStart :: "string \<Rightarrow> nat option" where
  "mentionStart [] = None"
| "mentionStart (c # cs) =
     (if c = CHR ''@'' \<and> mentionBody cs then Some 0 else map_option Suc (mentionStart cs))"

text \<open>
  Modelled from the spec: \<^verbatim>\<open>removeMention\<close> of \<^verbatim>\<open>../utils/mention-context\<close>, which
  is not among the sources. Section 4.4: it deletes the whole mention token adjacent
  to the cursor and returns the cursor at the start of the span; section 7: on a text
  without such a token it returns the input unchanged.
\<close>

definition removeMention_spec :: "string \<Rightarrow> int \<Rightarrow> string \<times> int" where
  "removeMention_spec text cursor =
     (let beforeCursor = js_slice text 0 cursor;
          afterCursor = drop (length beforeCursor) text
      in case mentionStart beforeCursor of
           None \<Rightarrow> (text, cursor)
         | Some k \<Rightarrow> (take k beforeCursor @ afterCursor, int k))"

text \<open>
  Modelled from the spec: \<^verbatim>\<open>shouldShowContextMenu\<close> of \<^verbatim>\<open>../utils/mention-context\<close>,
  which is not among the sources. Section 4.3: the menu is open when the cursor is
  immediately after an unterminated \<^verbatim>\<open>@token\<close>, that is, an \<^verbatim>\<open>@\<close> precedes the
  cursor with no whitespace between the two.
\<close>

definition shouldShowContextMenu_spec :: "string \<Rightarrow> int \<Rightarrow> bool" where
  "shouldShowContextMenu_spec text cursor =
     (let beforeCursor = js_slice text 0 cursor;
          lastAtIndex = js_lastIndexOf beforeCursor CHR ''@''
      in lastAtIndex \<noteq> - 1
         \<and> list_all (\<lambda>c. \<not> isSpace c) (drop (nat lastAtIndex + 1) beforeCursor))"

text \<open>
  Modelled from the spec: the two tests of section 4.2 that \<^verbatim>\<open>getContextMenuOptions\<close>,
  which is not among the sources, makes on the query: whether it parses as a URL (a
  scheme, \<^verbatim>\<open>://\<close>, and characters that are not whitespace), and whether it is a
  substring of a candidate, case preserved.
\<close>

definition isUrlQuery :: "string \<Rightarrow> bool" where
  "isUrlQuery q =
     (let w = takeWhile isWord q; r = dropWhile isWord q
      in w \<noteq> [] \<and> take 3 r = ''://'' \<and> nonSpaces (drop 3 r))"

definition containsSubstring :: "string \<Rightarrow> string \<Rightarrow> bool" where
  "containsSubstring s q = list_ex (\<lambda>k. take (length q) (drop k s) = q) [0 ..< Suc (length s)]"

text \<open>
  Modelled from the spec: \<^verbatim>\<open>getContextMenuOptions\<close> of \<^verbatim>\<open>../utils/mention-context\<close>,
  which is not among the sources. Section 4.2: every path entry (the synthetic
  \<^verbatim>\<open>problems\<close> entry among them) becomes a candidate of its category, kept when it
  is of the selected category, if one is selected, and when the query is a substring
  of it; a candidate of category \<^verbatim>\<open>url\<close> is added when the query itself parses as a
  URL. Each candidate is an object of its own: its \<open>oid\<close> is its position.
\<close>

definition getContextMenuOptions_spec ::
  "string \<Rightarrow> string option \<Rightarrow> search_path list \<Rightarrow> menu_option list" where
  "getContextMenuOptions_spec query categoryFilter paths =
     (let kept = filter (\<lambda>p. (categoryFilter = None \<or> categoryFilter = Some (ptype p))
                             \<and> containsSubstring (path p) query) paths;
          candidates = (if isUrlQuery query then [(''url'', query)] else [])
                       @ map (\<lambda>p. (ptype p, path p)) kept
      in map (\<lambda>(i, (t, v)). \<lparr>oid = i, otype = t, ovalue = v\<rparr>)
             (zip [0 ..< length candidates] candidates))"

definition specEnv :: "nat \<Rightarrow> env" where
  "specEnv maxImages =
     \<lparr>getContextMenuOptions = getContextMenuOptions_spec,
      insertMention = insertMention_spec,
      removeMention = removeMention_spec,
      shouldShowContextMenu = shouldShowContextMenu_spec,
      MAX_IMAGES_PER_MESSAGE = maxImages\<rparr>"

subsection \<open>Sample inputs\<close>

text \<open>
  Concrete inputs on which the handlers are evaluated below: a workspace of three
  paths, the helper functions after the specification with a cap of twenty
  attachments, and the states a user reaches by typing \<^verbatim>\<open>see @s\<close>, choosing the file
  \<^verbatim>\<open>/src/a.ts\<close> from the menu, and pressing Backspace once.
\<close>

definition sampleFiles :: "string list" where
  "sampleFiles = [''src/a.ts'', ''src/'', ''README.md'']"

definition sampleEnv :: env where
  "sampleEnv = specEnv 20"

definition plainKey :: "string \<Rightarrow> key_event" where
  "plainKey k = \<lparr>key = k, shiftKey = False, nativeIsComposing = Some False\<rparr>"

text \<open>A Backspace key event that arrives while an IME composition is under way.\<close>

definition composingBackspace :: key_event where
  "composingBackspace = \<lparr>key = ''Backspace'', shiftKey = False, nativeIsComposing = Some True\<rparr>"

definition menuOpenState :: chat_state where
  "menuOpenState =
     run sampleEnv (initialState [] [] False sampleFiles) [InputChange ''see @s'' 6]"

definition mentionInsertedState :: chat_state where
  "mentionInsertedState = step sampleEnv menuOpenState (MenuSelect ''file'' ''/src/a.ts'')"

definition spaceConsumedState :: chat_state where
  "spaceConsumedState = step sampleEnv mentionInsertedState (KeyDown (plainKey ''Backspace''))"

text \<open>
  The text \<^verbatim>\<open>@problems\<close>, two spaces and \<^verbatim>\<open>x\<close>, with the cursor between the two
  spaces.
\<close>

definition twoSpacesState :: chat_state where
  "twoSpacesState = (initialState ''@problems  x'' [] False sampleFiles)\<lparr>cursorPosition := 10\<rparr>"

text \<open>
  A paste of five clipboard entries onto one attachment: a PNG and a WebP that
  decode, a GIF, a text, and a JPEG whose reading fails.
\<close>

definition pasteState :: chat_state where
  "pasteState = initialState [] [''old''] False sampleFiles"

definition pastedItems :: "clipboard_item list" where
  "pastedItems =
     [\<lparr>itype = ''image/png'', getAsFile = Some (ReadString ''data:png'')\<rparr>,
      \<lparr>itype = ''image/gif'', getAsFile = Some (ReadString ''data:gif'')\<rparr>,
      \<lparr>itype = ''text/plain'', getAsFile = None\<rparr>,
      \<lparr>itype = ''image/jpeg'', getAsFile = Some ReadError\<rparr>,
      \<lparr>itype = ''image/webp'', getAsFile = Some (ReadString ''data:webp'')\<rparr>]"

text \<open>
  The state after typing \<^verbatim>\<open>@\<close> in a workspace of one file: the menu shows two
  candidates and the highlighted index is 3. And the state after typing a URL after
  the \<^verbatim>\<open>@\<close>: the only candidate is the URL, at the highlighted index 0.
\<close>

definition oneFileState :: chat_state where
  "oneFileState = run sampleEnv (initialState [] [] False [''a.ts'']) [InputChange ''@'' 1]"

definition urlQueryState :: chat_state where
  "urlQueryState =
     run sampleEnv (initialState [] [] False sampleFiles) [InputChange ''@http://x.y'' 11]"

section \<open>Properties\<close>

subsection \<open>Facts about the JavaScript primitives\<close>

lemma findIndex_ge: "- 1 \<le> findIndex p xs"
  by (induction xs) (auto simp: Let_def)

lemma findIndex_none: "(findIndex p xs = - 1) = (\<forall>x \<in> set xs. \<not> p x)"
proof (induction xs)
  case Nil
  show ?case by simp
next
  case (Cons x xs)
  have "- 1 \<le> findIndex p xs" by (rule findIndex_ge)
  then show ?case using Cons by (auto simp: Let_def)
qed





subsection \<open>Selecting a mention\<close>



text \<open>
  Claim C6. Selecting a candidate whose value is \<^verbatim>\<open>file\<close> or \<^verbatim>\<open>folder\<close> (a
  category) sets the category filter to the candidate's category, empties the
  query and sets the highlighted index to 0; the menu stays as it is and the text is
  not touched. This holds whether or not a category was selected before. Selecting
  any other candidate closes the menu, clears the category filter and, the text area
  being mounted, replaces the text by the result of \<^verbatim>\<open>insertMention\<close>.
\<close>

theorem mention_select_two_step:
  "(val = ''file'' \<or> val = ''folder'' \<longrightarrow>
      handleMentionSelect e s type val
        = s\<lparr>selectedType := Some (toLowerCase type), searchQuery := [], selectedMenuIndex := 0\<rparr>
      \<and> showContextMenu (handleMentionSelect e s type val) = showContextMenu s
      \<and> inputValue (handleMentionSelect e s type val) = inputValue s
      \<and> (type = ''file'' \<or> type = ''folder'' \<longrightarrow>
           selectedType (handleMentionSelect e s type val) = Some type))
   \<and> (val \<noteq> ''file'' \<and> val \<noteq> ''folder'' \<longrightarrow>
        \<not> showContextMenu (handleMentionSelect e s type val)
        \<and> selectedType (handleMentionSelect e s type val) = None
        \<and> (\<forall>domValue. textAreaRef s = Some domValue \<longrightarrow>
              inputValue (handleMentionSelect e s type val)
                = insertMention e domValue (cursorPosition s) (insertValueOf type val)))"
proof -
  have "toLowerCase ''file'' = ''file''" and "toLowerCase ''folder'' = ''folder''"
    by (simp_all add: toLowerCase_def lowerChar_def)
  then show ?thesis
    by (auto simp: handleMentionSelect_def Let_def log_def split: option.splits)
qed

theorem mention_select_two_step_witness:
  "handleMentionSelect sampleEnv menuOpenState ''folder'' ''folder''
     = menuOpenState\<lparr>selectedType := Some ''folder'', searchQuery := [], selectedMenuIndex := 0\<rparr>
   \<and> showContextMenu (handleMentionSelect sampleEnv menuOpenState ''folder'' ''folder'')
   \<and> inputValue (handleMentionSelect sampleEnv menuOpenState ''folder'' ''folder'') = ''see @s''
   \<and> \<not> showContextMenu (handleMentionSelect sampleEnv menuOpenState ''problems'' ''problems'')
   \<and> selectedType (handleMentionSelect sampleEnv menuOpenState ''problems'' ''problems'') = None
   \<and> inputValue (handleMentionSelect sampleEnv menuOpenState ''problems'' ''problems'')
       = ''see @problems ''"
proof -
  have h1: "showContextMenu menuOpenState" and h2: "inputValue menuOpenState = ''see @s''"
    and h3: "textAreaRef menuOpenState = Some ''see @s''"
    and h4: "insertMention sampleEnv ''see @s'' (cursorPosition menuOpenState)
               (insertValueOf ''problems'' ''problems'') = ''see @problems ''"
    and h5: "toLowerCase ''folder'' = ''folder''"
    by code_simp+
  from mention_select_two_step [of "''folder''" sampleEnv menuOpenState "''folder''"]
    mention_select_two_step [of "''problems''" sampleEnv menuOpenState "''problems''"]
    h1 h2 h3 h4 h5
  show ?thesis by simp
qed

subsection \<open>Keys while the menu is open\<close>

text \<open>
  Claim C8. While the menu is open, Escape sets the category filter to null and the
  highlighted index to 3, the slot of the \<^verbatim>\<open>file\<close> entry, and changes nothing else:
  the menu stays open.
\<close>

theorem escape_clears_filter:
  assumes "showContextMenu s" and "key ev = ''Escape''"
  shows "handleKeyDown e s ev = s\<lparr>selectedType := None, selectedMenuIndex := 3\<rparr>
         \<and> showContextMenu (handleKeyDown e s ev)"
  using assms by (simp add: handleKeyDown_def)

theorem escape_clears_filter_witness:
  "showContextMenu menuOpenState \<and> key (plainKey ''Escape'') = ''Escape''
   \<and> selectedMenuIndex menuOpenState = 0
   \<and> handleKeyDown sampleEnv menuOpenState (plainKey ''Escape'')
       = menuOpenState\<lparr>selectedType := None, selectedMenuIndex := 3\<rparr>
   \<and> showContextMenu (handleKeyDown sampleEnv menuOpenState (plainKey ''Escape''))"
proof -
  have h1: "showContextMenu menuOpenState" and h3: "selectedMenuIndex menuOpenState = 0"
    by code_simp+
  have h2: "key (plainKey ''Escape'') = ''Escape''"
    by (simp add: plainKey_def)
  from escape_clears_filter [OF h1 h2] h1 h2 h3 show ?thesis
    by simp
qed

text \<open>
  Claim C10. With the menu open and no entry highlighted (index \<open>-1\<close>), Enter without
  Shift and outside an IME composition commits no candidate: the handler prevents the
  default action and calls \<^verbatim>\<open>onSend\<close>, and the state, the open menu included, is
  otherwise unchanged.
\<close>

theorem enter_without_highlight_sends:
  assumes "showContextMenu s" and "selectedMenuIndex s = - 1"
    and "key ev = ''Enter''" and "\<not> shiftKey ev" and "\<not> isComposing ev"
  shows "handleKeyDown e s ev = s\<lparr>effects := effects s @ [PreventDefault, OnSend]\<rparr>
         \<and> showContextMenu (handleKeyDown e s ev)"
  using assms by (simp add: handleKeyDown_def log_def)

theorem enter_without_highlight_sends_witness:
  "showContextMenu (menuOpenState\<lparr>selectedMenuIndex := - 1\<rparr>)
   \<and> selectedMenuIndex (menuOpenState\<lparr>selectedMenuIndex := - 1\<rparr>) = - 1
   \<and> key (plainKey ''Enter'') = ''Enter'' \<and> \<not> shiftKey (plainKey ''Enter'')
   \<and> \<not> isComposing (plainKey ''Enter'')
   \<and> effects (handleKeyDown sampleEnv (menuOpenState\<lparr>selectedMenuIndex := - 1\<rparr>)
                (plainKey ''Enter''))
       = [PreventDefault, OnSend]
   \<and> inputValue (handleKeyDown sampleEnv (menuOpenState\<lparr>selectedMenuIndex := - 1\<rparr>)
                   (plainKey ''Enter''))
       = ''see @s''"
proof -
  have h1: "showContextMenu (menuOpenState\<lparr>selectedMenuIndex := - 1\<rparr>)"
    and h0: "effects menuOpenState = []" and h6: "inputValue menuOpenState = ''see @s''"
    by code_simp+
  have h2: "selectedMenuIndex (menuOpenState\<lparr>selectedMenuIndex := - 1\<rparr>) = - 1"
    by simp
  have h3: "key (plainKey ''Enter'') = ''Enter''" and h4: "\<not> shiftKey (plainKey ''Enter'')"
    and h5: "\<not> isComposing (plainKey ''Enter'')"
    by (simp_all add: plainKey_def isComposing_def)
  from enter_without_highlight_sends [OF h1 h2 h3 h4 h5] h0 h1 h2 h3 h4 h5 h6 show ?thesis
    by simp
qed

subsection \<open>Backspace\<close>

text \<open>
  What the first branch of the Backspace policy does: when the character before the
  cursor is a space or a newline and the text before it ends with a mention, the
  cursor moves before that character, the text stays, and the flag is set. The
  default action is prevented unless the character at offset \<open>cursor + 1\<close> is a space
  or a newline.
\<close>

lemma backspace_consumes_separator:
  assumes "key ev = ''Backspace''" and "\<not> isComposing ev"
    and "isWhitespaceChar (js_nth (inputValue s) (cursorPosition s - 1))"
    and "mentionAtEnd (js_slice (inputValue s) 0 (cursorPosition s - 1))"
  shows "cursorPosition (handleKeyDown e s ev) = cursorPosition s - 1
         \<and> inputValue (handleKeyDown e s ev) = inputValue s
         \<and> justDeletedSpaceAfterMention (handleKeyDown e s ev)
         \<and> (PreventDefault \<in> set (drop (length (effects s)) (effects (handleKeyDown e s ev)))
              \<longleftrightarrow> \<not> isWhitespaceChar (js_nth (inputValue s) (cursorPosition s + 1)))"
  using assms
  by (auto simp: handleKeyDown_def backspace_def Let_def log_def split: option.splits)

text \<open>
  Claim C2, at the text \<^verbatim>\<open>@problems\<close>, two spaces, \<^verbatim>\<open>x\<close> with the cursor between
  the two spaces. The character before the cursor is a space after a mention and the
  character immediately after the cursor is a space too, so the claim lets the native
  deletion proceed. The handler looks at the character one further to the right, the
  \<^verbatim>\<open>x\<close>, and intercepts the key: it prevents the default action and only moves the
  cursor.
\<close>

theorem backspace_lookahead_off_by_one:
  "isWhitespaceChar (js_nth (inputValue twoSpacesState) (cursorPosition twoSpacesState - 1))
   \<and> mentionAtEnd (js_slice (inputValue twoSpacesState) 0 (cursorPosition twoSpacesState - 1))
   \<and> isWhitespaceChar (js_nth (inputValue twoSpacesState) (cursorPosition twoSpacesState))
   \<and> js_nth (inputValue twoSpacesState) (cursorPosition twoSpacesState + 1) = Some CHR ''x''
   \<and> effects (handleKeyDown sampleEnv twoSpacesState (plainKey ''Backspace''))
       = [PreventDefault, SetSelectionRange 9 9]
   \<and> inputValue (handleKeyDown sampleEnv twoSpacesState (plainKey ''Backspace''))
       = ''@problems  x''"
  by code_simp

text \<open>
  Claim C3, as stated, at the state reached by typing \<^verbatim>\<open>see @s\<close>, choosing
  \<^verbatim>\<open>/src/a.ts\<close> and pressing Backspace once, for a Backspace that arrives during an
  IME composition. The flag is set, the first branch does not apply and
  \<^verbatim>\<open>removeMention\<close> would change the text, but the handler does nothing: the flag
  stays set.
\<close>

theorem backspace_during_composition_counterexample:
  "key composingBackspace = ''Backspace''
   \<and> justDeletedSpaceAfterMention spaceConsumedState
   \<and> \<not> (isWhitespaceChar (js_nth (inputValue spaceConsumedState)
                              (cursorPosition spaceConsumedState - 1))
         \<and> mentionAtEnd (js_slice (inputValue spaceConsumedState) 0
                            (cursorPosition spaceConsumedState - 1)))
   \<and> fst (removeMention sampleEnv (inputValue spaceConsumedState)
              (cursorPosition spaceConsumedState)) \<noteq> inputValue spaceConsumedState
   \<and> handleKeyDown sampleEnv spaceConsumedState composingBackspace = spaceConsumedState
   \<and> justDeletedSpaceAfterMention
         (handleKeyDown sampleEnv spaceConsumedState composingBackspace)"
  by code_simp

text \<open>
  Claim C3, amended. On Backspace outside an IME composition, when the first branch
  does not apply and the flag is set, the handler calls \<^verbatim>\<open>removeMention\<close> on the text
  and the cursor. If the text it returns differs from the input, the default action is
  prevented, the text is replaced and the returned position becomes the deferred
  cursor target; if it is the same, neither the text nor any cursor field changes. In
  both cases the flag is cleared and the menu is closed.
\<close>

theorem backspace_removes_mention:
  assumes "key ev = ''Backspace''" and "\<not> isComposing ev"
    and "\<not> (isWhitespaceChar (js_nth (inputValue s) (cursorPosition s - 1))
            \<and> mentionAtEnd (js_slice (inputValue s) 0 (cursorPosition s - 1)))"
    and "justDeletedSpaceAfterMention s"
    and "removeMention e (inputValue s) (cursorPosition s) = (newText, newPosition)"
  shows "handleKeyDown e s ev =
           (if newText \<noteq> inputValue s
            then s\<lparr>inputValue := newText, intendedCursorPosition := Some newPosition,
                   justDeletedSpaceAfterMention := False, showContextMenu := False,
                   effects := effects s @ [PreventDefault]\<rparr>
            else s\<lparr>justDeletedSpaceAfterMention := False, showContextMenu := False\<rparr>)"
  using assms by (auto simp: handleKeyDown_def backspace_def Let_def log_def)

theorem backspace_removes_mention_witness:
  "key (plainKey ''Backspace'') = ''Backspace'' \<and> \<not> isComposing (plainKey ''Backspace'')
   \<and> \<not> (isWhitespaceChar (js_nth (inputValue spaceConsumedState)
                              (cursorPosition spaceConsumedState - 1))
         \<and> mentionAtEnd (js_slice (inputValue spaceConsumedState) 0
                            (cursorPosition spaceConsumedState - 1)))
   \<and> justDeletedSpaceAfterMention spaceConsumedState
   \<and> inputValue spaceConsumedState = ''see @/src/a.ts ''
   \<and> cursorPosition spaceConsumedState = 14
   \<and> removeMention sampleEnv (inputValue spaceConsumedState) (cursorPosition spaceConsumedState)
       = (''see  '', 4)
   \<and> handleKeyDown sampleEnv spaceConsumedState (plainKey ''Backspace'')
       = spaceConsumedState
           \<lparr>inputValue := ''see  '', intendedCursorPosition := Some 4,
            justDeletedSpaceAfterMention := False, showContextMenu := False,
            effects := effects spaceConsumedState @ [PreventDefault]\<rparr>"
proof -
  have h1: "key (plainKey ''Backspace'') = ''Backspace''"
    and h2: "\<not> isComposing (plainKey ''Backspace'')"
    by (simp_all add: plainKey_def isComposing_def)
  have h3: "\<not> (isWhitespaceChar (js_nth (inputValue spaceConsumedState)
                                   (cursorPosition spaceConsumedState - 1))
              \<and> mentionAtEnd (js_slice (inputValue spaceConsumedState) 0
                                 (cursorPosition spaceConsumedState - 1)))"
    by code_simp
  have h4: "justDeletedSpaceAfterMention spaceConsumedState"
    and h6: "inputValue spaceConsumedState = ''see @/src/a.ts ''"
    and h7: "cursorPosition spaceConsumedState = 14"
    by code_simp+
  have h5: "removeMention sampleEnv (inputValue spaceConsumedState)
              (cursorPosition spaceConsumedState) = (''see  '', 4)"
    by code_simp
  from backspace_removes_mention [OF h1 h2 h3 h4 h5] h1 h2 h3 h4 h5 h6 h7 show ?thesis
    by simp
qed
subsection \<open>The arrow keys\<close>

lemma findIndex_less: "findIndex p xs < int (length xs)"
  by (induction xs) (auto simp: Let_def)

lemma findIndex_hit:
  "x \<in> set xs \<Longrightarrow>
     0 \<le> findIndex (\<lambda>y. y = x) xs \<and> findIndex (\<lambda>y. y = x) xs < int (length xs)
     \<and> xs ! nat (findIndex (\<lambda>y. y = x) xs) = x"
proof (induction xs)
  case Nil
  then show ?case by simp
next
  case (Cons a xs)
  show ?case
  proof (cases "a = x")
    case True
    then show ?thesis by simp
  next
    case False
    with Cons.prems have "x \<in> set xs" by simp
    from Cons.IH [OF this] False show ?thesis
      by (auto simp: Let_def nat_add_distrib)
  qed
qed

lemma findIndex_nth_distinct:
  "distinct xs \<Longrightarrow> k < length xs \<Longrightarrow> findIndex (\<lambda>y. y = xs ! k) xs = int k"
proof (induction xs arbitrary: k)
  case Nil
  then show ?case by simp
next
  case (Cons a xs)
  show ?case
  proof (cases k)
    case 0
    then show ?thesis by simp
  next
    case (Suc j)
    with Cons.prems have j: "j < length xs" and d: "distinct xs" and "a \<notin> set xs"
      by simp_all
    then have "xs ! j \<noteq> a" using nth_mem [OF j] by auto
    with Cons.IH [OF d j] Suc show ?thesis
      by (simp add: Let_def)
  qed
qed

lemma js_nth_findIndex:
  "x \<in> set xs \<Longrightarrow> js_nth xs (findIndex (\<lambda>y. y = x) xs) = Some x"
  using findIndex_hit [of x xs] by (simp add: js_nth_def)

lemma js_rem_nonneg: "0 \<le> a \<Longrightarrow> 0 < b \<Longrightarrow> js_rem a b = a mod b"
  by (cases "a = 0") (simp_all add: js_rem_def)

lemma js_rem_range:
  assumes "0 \<le> a \<or> (a = - 1 \<and> b = 1)" and "0 < b"
  shows "0 \<le> js_rem a b \<and> js_rem a b < b"
proof (cases "0 \<le> a")
  case True
  then show ?thesis using assms(2) by (simp add: js_rem_nonneg)
next
  case False
  with assms(1) have "a = - 1" and "b = 1" by simp_all
  then show ?thesis by (simp add: js_rem_def)
qed

lemma succ_mod_nat: "nat ((int k + 1) mod int n) = (k + 1) mod n"
proof -
  have "int ((k + 1) mod n) = int (k + 1) mod int n"
    by (simp only: zmod_int)
  then have "(int k + 1) mod int n = int ((k + 1) mod n)"
    by (simp add: ac_simps)
  then show ?thesis by simp
qed

lemma pred_mod_nat:
  assumes "k < n"
  shows "nat ((int k + - 1) mod int n) = (k + n - 1) mod n"
proof -
  have "int (k + n - 1) = (int k - 1) + int n"
    using assms by simp
  then have "int ((k + n - 1) mod n) = ((int k - 1) + int n) mod int n"
    by (simp only: zmod_int)
  also have "\<dots> = (int k - 1) mod int n"
    by (rule mod_add_self2)
  finally have "(int k + - 1) mod int n = int ((k + n - 1) mod n)"
    by simp
  then show ?thesis by simp
qed

text \<open>
  The index the updater returns, given the position \<open>cur\<close> of the highlighted entry
  among the selectable ones (\<open>-1\<close> when it is not among them).
\<close>

lemma arrowIndex_unfold:
  assumes "sel = filter (\<lambda>option. otype option \<noteq> ''url'') opts" and "sel \<noteq> []"
    and "cur = findIndex (\<lambda>option. Some option = js_nth opts i) sel"
    and "new = js_rem (cur + d + int (length sel)) (int (length sel))"
  shows "arrowIndex d opts i = findIndex (\<lambda>option. Some option = js_nth sel new) opts"
proof -
  from assms(1,2) have "opts \<noteq> []" by auto
  then show ?thesis
    using assms by (simp add: arrowIndex_def Let_def)
qed

lemma arrowIndex_target:
  assumes "sel = filter (\<lambda>option. otype option \<noteq> ''url'') opts" and "sel \<noteq> []"
    and "d = 1 \<or> d = - 1"
  shows "\<exists>j < length sel. arrowIndex d opts i = findIndex (\<lambda>y. y = sel ! j) opts"
proof -
  define cur where "cur = findIndex (\<lambda>option. Some option = js_nth opts i) sel"
  define new where "new = js_rem (cur + d + int (length sel)) (int (length sel))"
  have n: "0 < int (length sel)" using assms(2) by simp
  have "- 1 \<le> cur" unfolding cur_def by (rule findIndex_ge)
  with assms(3) n have "0 \<le> cur + d + int (length sel)
                       \<or> (cur + d + int (length sel) = - 1 \<and> int (length sel) = 1)"
    by linarith
  from js_rem_range [OF this n] have r: "0 \<le> new" "new < int (length sel)"
    unfolding new_def by simp_all
  then have "js_nth sel new = Some (sel ! nat new)" by (simp add: js_nth_def)
  with arrowIndex_unfold [OF assms(1,2) cur_def new_def]
  have "arrowIndex d opts i = findIndex (\<lambda>y. y = sel ! nat new) opts" by simp
  moreover have "nat new < length sel" using r by simp
  ultimately show ?thesis by blast
qed

lemma arrowIndex_selectable:
  assumes "\<exists>option \<in> set opts. otype option \<noteq> ''url''" and "d = 1 \<or> d = - 1"
  shows "\<exists>option. js_nth opts (arrowIndex d opts i) = Some option \<and> otype option \<noteq> ''url''"
proof -
  define sel where "sel = filter (\<lambda>option. otype option \<noteq> ''url'') opts"
  have ne: "sel \<noteq> []" using assms(1) by (auto simp: sel_def filter_empty_conv)
  from arrowIndex_target [OF sel_def ne assms(2)]
  obtain j where j: "j < length sel" and a: "arrowIndex d opts i = findIndex (\<lambda>y. y = sel ! j) opts"
    by blast
  from j have "sel ! j \<in> set sel" by simp
  then have m: "sel ! j \<in> set opts" and t: "otype (sel ! j) \<noteq> ''url''"
    by (simp_all add: sel_def)
  from js_nth_findIndex [OF m] a t show ?thesis by simp
qed

lemma arrowIndex_cycle:
  assumes "distinct opts" and "sel = filter (\<lambda>option. otype option \<noteq> ''url'') opts"
    and "k < length sel" and "d = 1 \<or> d = - 1"
  shows "arrowIndex d opts (findIndex (\<lambda>y. y = sel ! k) opts)
         = findIndex (\<lambda>y. y = sel ! nat ((int k + d) mod int (length sel))) opts"
proof -
  have pos: "0 < length sel" using assms(3) by linarith
  then have ne: "sel \<noteq> []" by simp
  have n: "0 < int (length sel)" using pos by simp
  have ds: "distinct sel" using assms(1,2) by simp
  from assms(3) have "sel ! k \<in> set sel" by simp
  then have "sel ! k \<in> set opts" by (simp add: assms(2))
  then have at: "js_nth opts (findIndex (\<lambda>y. y = sel ! k) opts) = Some (sel ! k)"
    by (rule js_nth_findIndex)
  define cur where
    "cur = findIndex (\<lambda>option. Some option = js_nth opts (findIndex (\<lambda>y. y = sel ! k) opts)) sel"
  define new where "new = js_rem (cur + d + int (length sel)) (int (length sel))"
  have c: "cur = int k"
    unfolding cur_def using at findIndex_nth_distinct [OF ds assms(3)] by simp
  have "0 \<le> int k + d + int (length sel)" using assms(4) n by linarith
  then have "new = (int k + d + int (length sel)) mod int (length sel)"
    unfolding new_def c using n by (rule js_rem_nonneg)
  then have nw: "new = (int k + d) mod int (length sel)" by simp
  then have "0 \<le> new" and "new < int (length sel)" using n by simp_all
  then have "js_nth sel new = Some (sel ! nat new)" by (simp add: js_nth_def)
  with arrowIndex_unfold [OF assms(2) ne cur_def new_def] nw show ?thesis by simp
qed

lemma arrowIndex_enter_cycle:
  assumes "sel = filter (\<lambda>option. otype option \<noteq> ''url'') opts" and "sel \<noteq> []"
    and "\<not> (\<exists>option. js_nth opts i = Some option \<and> otype option \<noteq> ''url'')"
  shows "arrowIndex 1 opts i = findIndex (\<lambda>y. y = sel ! 0) opts"
proof -
  define cur where "cur = findIndex (\<lambda>option. Some option = js_nth opts i) sel"
  define new where "new = js_rem (cur + 1 + int (length sel)) (int (length sel))"
  have n: "0 < int (length sel)" using assms(2) by simp
  have "\<forall>x \<in> set sel. \<not> (Some x = js_nth opts i)"
    using assms(1,3) by auto
  then have c: "cur = - 1" unfolding cur_def by (simp add: findIndex_none)
  have "new = 0" unfolding new_def c using n by (simp add: js_rem_nonneg)
  moreover have "js_nth sel 0 = Some (sel ! 0)" using assms(2) by (simp add: js_nth_def)
  ultimately show ?thesis
    using arrowIndex_unfold [OF assms(1,2) cur_def new_def] by simp
qed

lemma arrowIndex_iterate:
  assumes "distinct opts" and "sel = filter (\<lambda>option. otype option \<noteq> ''url'') opts"
    and "k < length sel"
  shows "(arrowIndex 1 opts ^^ m) (findIndex (\<lambda>y. y = sel ! k) opts)
         = findIndex (\<lambda>y. y = sel ! ((k + m) mod length sel)) opts"
proof (induction m)
  case 0
  then show ?case using assms(3) by simp
next
  case (Suc m)
  have pos: "0 < length sel" using assms(3) by linarith
  then have lt: "(k + m) mod length sel < length sel" by simp
  have "nat ((int ((k + m) mod length sel) + 1) mod int (length sel)) = (k + Suc m) mod length sel"
    by (simp add: nat_mod_distrib nat_add_distrib mod_Suc_eq flip: Suc_eq_plus1 zmod_int)
  with arrowIndex_cycle [OF assms(1,2) lt, of 1] Suc show ?case by simp
qed

lemma arrowIndex_round_trip:
  assumes "distinct opts" and "sel = filter (\<lambda>option. otype option \<noteq> ''url'') opts"
    and "js_nth opts i = Some option" and "otype option \<noteq> ''url''"
  shows "(arrowIndex 1 opts ^^ length sel) i = i"
proof -
  from assms(3) have i: "0 \<le> i" "nat i < length opts" and o: "option = opts ! nat i"
    by (auto simp: js_nth_def split: if_splits)
  then have "option \<in> set opts" by simp
  with assms(2,4) have "option \<in> set sel" by simp
  then obtain k where k: "k < length sel" and sk: "sel ! k = option"
    by (auto simp: in_set_conv_nth)
  have "findIndex (\<lambda>y. y = opts ! nat i) opts = int (nat i)"
    using assms(1) i(2) by (rule findIndex_nth_distinct)
  then have p: "findIndex (\<lambda>y. y = sel ! k) opts = i" using i(1) o sk by simp
  from arrowIndex_iterate [OF assms(1,2) k, of "length sel"] p k show ?thesis by simp
qed

text \<open>Pressing an arrow key \<open>m\<close> times while the menu is open.\<close>

lemma arrow_key_iterate:
  assumes "showContextMenu s" and "key ev = ''ArrowDown''"
    and "opts = getContextMenuOptions e (searchQuery s) (selectedType s) (searchPaths (filePaths s))"
  shows "((\<lambda>t. handleKeyDown e t ev) ^^ m) s
         = s\<lparr>effects := effects s @ replicate m PreventDefault,
              selectedMenuIndex := (arrowIndex 1 opts ^^ m) (selectedMenuIndex s)\<rparr>"
proof (induction m)
  case 0
  then show ?case by simp
next
  case (Suc m)
  then show ?case
    using assms by (simp add: handleKeyDown_def log_def replicate_append_same)
qed
text \<open>
  Claim C4, as stated, at the state after typing \<^verbatim>\<open>@\<close> in a workspace of one file.
  The menu is open with two candidates, neither of category \<^verbatim>\<open>url\<close>, and the
  highlighted index is 3, which is no candidate's index. Two presses of ArrowDown,
  as many as there are selectable candidates, leave the index at 1, not at 3.
\<close>

theorem arrow_down_round_trip_counterexample:
  "showContextMenu oneFileState \<and> selectedMenuIndex oneFileState = 3
   \<and> getContextMenuOptions sampleEnv (searchQuery oneFileState) (selectedType oneFileState)
        (searchPaths (filePaths oneFileState))
       = [\<lparr>oid = 0, otype = ''problems'', ovalue = ''problems''\<rparr>,
          \<lparr>oid = 1, otype = ''file'', ovalue = ''/a.ts''\<rparr>]
   \<and> selectedMenuIndex
        (handleKeyDown sampleEnv
           (handleKeyDown sampleEnv oneFileState (plainKey ''ArrowDown''))
           (plainKey ''ArrowDown'')) = 1"
  by code_simp

text \<open>
  Claim C4, amended. While the menu is open, ArrowDown and ArrowUp leave the
  highlighted index alone when the candidate list is empty (so \<open>-1\<close> stays \<open>-1\<close>).
  With candidates that are distinct objects, from the index of the \<open>k\<close>-th
  candidate that is not of category \<^verbatim>\<open>url\<close> ArrowDown moves to the index of the
  next such candidate and ArrowUp to the index of the one before, wrapping at both
  ends; and when the highlighted index is the index of a candidate that is not of
  category \<^verbatim>\<open>url\<close>, pressing ArrowDown as many times as there are such candidates
  returns the index to its starting value. From any other index (\<open>-1\<close>, an index out
  of range, the index of a \<^verbatim>\<open>url\<close> candidate) ArrowDown moves to the first
  candidate that is not of category \<^verbatim>\<open>url\<close>.
\<close>

theorem arrow_keys_cycle_selectable:
  assumes "showContextMenu s"
    and "opts = getContextMenuOptions e (searchQuery s) (selectedType s)
                  (searchPaths (filePaths s))"
    and "sel = filter (\<lambda>option. otype option \<noteq> ''url'') opts"
    and "key down = ''ArrowDown''" and "key up = ''ArrowUp''"
  shows "(opts = [] \<longrightarrow>
            selectedMenuIndex (handleKeyDown e s down) = selectedMenuIndex s
            \<and> selectedMenuIndex (handleKeyDown e s up) = selectedMenuIndex s)
         \<and> (distinct opts \<longrightarrow>
              (\<forall>k < length sel. selectedMenuIndex s = findIndex (\<lambda>y. y = sel ! k) opts \<longrightarrow>
                 selectedMenuIndex (handleKeyDown e s down)
                   = findIndex (\<lambda>y. y = sel ! ((k + 1) mod length sel)) opts
                 \<and> selectedMenuIndex (handleKeyDown e s up)
                   = findIndex (\<lambda>y. y = sel ! ((k + length sel - 1) mod length sel)) opts))
         \<and> (distinct opts \<longrightarrow>
              (\<forall>option. js_nth opts (selectedMenuIndex s) = Some option \<and> otype option \<noteq> ''url'' \<longrightarrow>
                 selectedMenuIndex (((\<lambda>t. handleKeyDown e t down) ^^ length sel) s)
                   = selectedMenuIndex s))
         \<and> (sel \<noteq> []
              \<and> \<not> (\<exists>option. js_nth opts (selectedMenuIndex s) = Some option \<and> otype option \<noteq> ''url'')
              \<longrightarrow> selectedMenuIndex (handleKeyDown e s down) = findIndex (\<lambda>y. y = sel ! 0) opts)"
proof -
  have dn: "selectedMenuIndex (handleKeyDown e s down) = arrowIndex 1 opts (selectedMenuIndex s)"
    and up: "selectedMenuIndex (handleKeyDown e s up) = arrowIndex (- 1) opts (selectedMenuIndex s)"
    using assms by (simp_all add: handleKeyDown_def log_def)
  have a: "opts = [] \<longrightarrow>
             selectedMenuIndex (handleKeyDown e s down) = selectedMenuIndex s
             \<and> selectedMenuIndex (handleKeyDown e s up) = selectedMenuIndex s"
    unfolding dn up by (simp add: arrowIndex_def)
  have b: "selectedMenuIndex (handleKeyDown e s down)
             = findIndex (\<lambda>y. y = sel ! ((k + 1) mod length sel)) opts
           \<and> selectedMenuIndex (handleKeyDown e s up)
             = findIndex (\<lambda>y. y = sel ! ((k + length sel - 1) mod length sel)) opts"
    if d: "distinct opts" and k: "k < length sel"
      and i: "selectedMenuIndex s = findIndex (\<lambda>y. y = sel ! k) opts" for k
    unfolding dn up i
    using arrowIndex_cycle [OF d assms(3) k, of 1] arrowIndex_cycle [OF d assms(3) k, of "- 1"]
      succ_mod_nat [of k "length sel"] pred_mod_nat [OF k]
    by simp
  have c: "selectedMenuIndex (((\<lambda>t. handleKeyDown e t down) ^^ length sel) s) = selectedMenuIndex s"
    if d: "distinct opts" and o: "js_nth opts (selectedMenuIndex s) = Some option"
      and t: "otype option \<noteq> ''url''" for option
    using arrow_key_iterate [OF assms(1,4,2), of "length sel"]
      arrowIndex_round_trip [OF d assms(3) o t]
    by simp
  have e: "sel \<noteq> []
           \<and> \<not> (\<exists>option. js_nth opts (selectedMenuIndex s) = Some option \<and> otype option \<noteq> ''url'')
           \<longrightarrow> selectedMenuIndex (handleKeyDown e s down) = findIndex (\<lambda>y. y = sel ! 0) opts"
    unfolding dn using arrowIndex_enter_cycle [OF assms(3)] by blast
  from a b c e show ?thesis by blast
qed

theorem arrow_keys_cycle_selectable_witness:
  "showContextMenu menuOpenState \<and> selectedMenuIndex menuOpenState = 0
   \<and> getContextMenuOptions sampleEnv (searchQuery menuOpenState) (selectedType menuOpenState)
        (searchPaths (filePaths menuOpenState))
       = [\<lparr>oid = 0, otype = ''problems'', ovalue = ''problems''\<rparr>,
          \<lparr>oid = 1, otype = ''file'', ovalue = ''/src/a.ts''\<rparr>,
          \<lparr>oid = 2, otype = ''folder'', ovalue = ''/src/''\<rparr>]
   \<and> selectedMenuIndex
        (((\<lambda>t. handleKeyDown sampleEnv t (plainKey ''ArrowDown'')) ^^ 3) menuOpenState) = 0
   \<and> selectedMenuIndex (handleKeyDown sampleEnv menuOpenState (plainKey ''ArrowDown'')) = 1
   \<and> selectedMenuIndex (handleKeyDown sampleEnv menuOpenState (plainKey ''ArrowUp'')) = 2"
proof -
  define opts where
    "opts = [\<lparr>oid = 0, otype = ''problems'', ovalue = ''problems''\<rparr>,
             \<lparr>oid = 1, otype = ''file'', ovalue = ''/src/a.ts''\<rparr>,
             \<lparr>oid = 2, otype = ''folder'', ovalue = ''/src/''\<rparr>]"
  have h1: "showContextMenu menuOpenState" and h0: "selectedMenuIndex menuOpenState = 0"
    by code_simp+
  have h2: "opts = getContextMenuOptions sampleEnv (searchQuery menuOpenState)
                     (selectedType menuOpenState) (searchPaths (filePaths menuOpenState))"
    unfolding opts_def by code_simp
  have h3: "opts = filter (\<lambda>option. otype option \<noteq> ''url'') opts"
    unfolding opts_def by simp
  have h4: "key (plainKey ''ArrowDown'') = ''ArrowDown''"
    and h5: "key (plainKey ''ArrowUp'') = ''ArrowUp''"
    by (simp_all add: plainKey_def)
  have d: "distinct opts" and l: "length opts = 3"
    and o: "js_nth opts 0 = Some \<lparr>oid = 0, otype = ''problems'', ovalue = ''problems''\<rparr>"
    and f0: "findIndex (\<lambda>y. y = opts ! 0) opts = 0"
    and f1: "findIndex (\<lambda>y. y = opts ! 1) opts = 1"
    and f2: "findIndex (\<lambda>y. y = opts ! 2) opts = 2"
    unfolding opts_def by (simp_all add: js_nth_def)
  note t = arrow_keys_cycle_selectable [OF h1 h2 h3 h4 h5]
  from t d have "\<forall>k < length opts. selectedMenuIndex menuOpenState = findIndex (\<lambda>y. y = opts ! k) opts \<longrightarrow>
            selectedMenuIndex (handleKeyDown sampleEnv menuOpenState (plainKey ''ArrowDown''))
              = findIndex (\<lambda>y. y = opts ! ((k + 1) mod length opts)) opts
            \<and> selectedMenuIndex (handleKeyDown sampleEnv menuOpenState (plainKey ''ArrowUp''))
              = findIndex (\<lambda>y. y = opts ! ((k + length opts - 1) mod length opts)) opts"
    by blast
  from this [rule_format, of 0] h0 f0 f1 f2 l
  have step: "selectedMenuIndex (handleKeyDown sampleEnv menuOpenState (plainKey ''ArrowDown'')) = 1
      \<and> selectedMenuIndex (handleKeyDown sampleEnv menuOpenState (plainKey ''ArrowUp'')) = 2"
    by simp
  from t d have "\<forall>option. js_nth opts (selectedMenuIndex menuOpenState) = Some option
                    \<and> otype option \<noteq> ''url'' \<longrightarrow>
            selectedMenuIndex
              (((\<lambda>t. handleKeyDown sampleEnv t (plainKey ''ArrowDown'')) ^^ length opts) menuOpenState)
            = selectedMenuIndex menuOpenState"
    by blast
  with o h0 l have round: "selectedMenuIndex
        (((\<lambda>t. handleKeyDown sampleEnv t (plainKey ''ArrowDown'')) ^^ 3) menuOpenState) = 0"
    by simp
  from h1 h0 h2 step round show ?thesis
    unfolding opts_def by simp
qed

text \<open>
  Claim C5. Whatever the state and the candidate list, Enter either commits nothing
  (the state is unchanged apart from the prevented default action and a call of
  \<^verbatim>\<open>onSend\<close>) or commits the highlighted candidate of an open menu, which then is
  not of category \<^verbatim>\<open>url\<close>; with a \<^verbatim>\<open>url\<close> candidate highlighted in an open menu,
  Enter only prevents the default action. And when the list holds a candidate that is
  not of category \<^verbatim>\<open>url\<close>, the index an arrow key leaves is the index of such a
  candidate.
\<close>

theorem url_never_committed_by_keyboard:
  assumes "opts = getContextMenuOptions e (searchQuery s) (selectedType s)
                    (searchPaths (filePaths s))"
  shows "(key ev = ''Enter'' \<longrightarrow>
            handleKeyDown e s ev = s
            \<or> handleKeyDown e s ev = s\<lparr>effects := effects s @ [PreventDefault]\<rparr>
            \<or> handleKeyDown e s ev = s\<lparr>effects := effects s @ [PreventDefault, OnSend]\<rparr>
            \<or> (\<exists>option. showContextMenu s
                  \<and> js_nth opts (selectedMenuIndex s) = Some option \<and> otype option \<noteq> ''url''
                  \<and> handleKeyDown e s ev
                      = handleMentionSelect e (s\<lparr>effects := effects s @ [PreventDefault]\<rparr>)
                          (otype option) (ovalue option)))
         \<and> (showContextMenu s \<and> key ev = ''Enter''
              \<and> (\<exists>option. js_nth opts (selectedMenuIndex s) = Some option \<and> otype option = ''url'')
              \<longrightarrow> handleKeyDown e s ev = s\<lparr>effects := effects s @ [PreventDefault]\<rparr>)
         \<and> (showContextMenu s \<and> (key ev = ''ArrowUp'' \<or> key ev = ''ArrowDown'')
              \<and> (\<exists>option \<in> set opts. otype option \<noteq> ''url'')
              \<longrightarrow> (\<exists>option. js_nth opts (selectedMenuIndex (handleKeyDown e s ev)) = Some option
                     \<and> otype option \<noteq> ''url''))"
proof -
  have a: "handleKeyDown e s ev = s
           \<or> handleKeyDown e s ev = s\<lparr>effects := effects s @ [PreventDefault]\<rparr>
           \<or> handleKeyDown e s ev = s\<lparr>effects := effects s @ [PreventDefault, OnSend]\<rparr>
           \<or> (\<exists>option. showContextMenu s
                 \<and> js_nth opts (selectedMenuIndex s) = Some option \<and> otype option \<noteq> ''url''
                 \<and> handleKeyDown e s ev
                     = handleMentionSelect e (s\<lparr>effects := effects s @ [PreventDefault]\<rparr>)
                         (otype option) (ovalue option))"
    if "key ev = ''Enter''"
    using that assms by (auto simp: handleKeyDown_def log_def split: option.splits)
  have b: "handleKeyDown e s ev = s\<lparr>effects := effects s @ [PreventDefault]\<rparr>"
    if "showContextMenu s" and "key ev = ''Enter''"
      and "js_nth opts (selectedMenuIndex s) = Some option" and "otype option = ''url''"
    for option
  proof -
    from that(3) have "selectedMenuIndex s \<noteq> - 1"
      by (auto simp: js_nth_def split: if_splits)
    with that assms show ?thesis
      by (simp add: handleKeyDown_def log_def)
  qed
  have c: "\<exists>option. js_nth opts (selectedMenuIndex (handleKeyDown e s ev)) = Some option
                    \<and> otype option \<noteq> ''url''"
    if "showContextMenu s" and "key ev = ''ArrowUp'' \<or> key ev = ''ArrowDown''"
      and "\<exists>option \<in> set opts. otype option \<noteq> ''url''"
  proof -
    have "selectedMenuIndex (handleKeyDown e s ev)
            = arrowIndex (if key ev = ''ArrowUp'' then - 1 else 1) opts (selectedMenuIndex s)"
      using that(1,2) assms by (auto simp: handleKeyDown_def log_def)
    moreover have "(if key ev = ''ArrowUp'' then - 1 else 1) = (1::int)
                   \<or> (if key ev = ''ArrowUp'' then - 1 else 1) = (- 1::int)"
      by simp
    ultimately show ?thesis
      using arrowIndex_selectable [OF that(3)] by simp
  qed
  from a b c show ?thesis by blast
qed

theorem url_never_committed_by_keyboard_witness:
  "showContextMenu urlQueryState \<and> selectedMenuIndex urlQueryState = 0
   \<and> getContextMenuOptions sampleEnv (searchQuery urlQueryState) (selectedType urlQueryState)
        (searchPaths (filePaths urlQueryState))
       = [\<lparr>oid = 0, otype = ''url'', ovalue = ''http://x.y''\<rparr>]
   \<and> handleKeyDown sampleEnv urlQueryState (plainKey ''Enter'')
       = urlQueryState\<lparr>effects := effects urlQueryState @ [PreventDefault]\<rparr>
   \<and> inputValue (handleKeyDown sampleEnv urlQueryState (plainKey ''Enter'')) = ''@http://x.y''
   \<and> showContextMenu menuOpenState
   \<and> (\<exists>option. js_nth (getContextMenuOptions sampleEnv (searchQuery menuOpenState)
                         (selectedType menuOpenState) (searchPaths (filePaths menuOpenState)))
                  (selectedMenuIndex (handleKeyDown sampleEnv menuOpenState (plainKey ''ArrowUp'')))
                = Some option
              \<and> otype option \<noteq> ''url'')"
proof -
  have h1: "showContextMenu urlQueryState" and h2: "selectedMenuIndex urlQueryState = 0"
    and h3: "[\<lparr>oid = 0, otype = ''url'', ovalue = ''http://x.y''\<rparr>]
             = getContextMenuOptions sampleEnv (searchQuery urlQueryState)
                 (selectedType urlQueryState) (searchPaths (filePaths urlQueryState))"
    and h4: "inputValue urlQueryState = ''@http://x.y''"
    and h5: "showContextMenu menuOpenState"
    and h6: "\<exists>option \<in> set (getContextMenuOptions sampleEnv (searchQuery menuOpenState)
                              (selectedType menuOpenState) (searchPaths (filePaths menuOpenState))).
               otype option \<noteq> ''url''"
    by code_simp+
  have k1: "key (plainKey ''Enter'') = ''Enter''"
    and k2: "key (plainKey ''ArrowUp'') = ''ArrowUp''"
    by (simp_all add: plainKey_def)
  have o: "js_nth [\<lparr>oid = 0, otype = ''url'', ovalue = ''http://x.y''\<rparr>] 0
           = Some \<lparr>oid = 0, otype = ''url'', ovalue = ''http://x.y''\<rparr>"
    by (simp add: js_nth_def)
  from url_never_committed_by_keyboard [OF h3, where ev = "plainKey ''Enter''"] h1 h2 k1 o
  have e: "handleKeyDown sampleEnv urlQueryState (plainKey ''Enter'')
             = urlQueryState\<lparr>effects := effects urlQueryState @ [PreventDefault]\<rparr>"
    by simp
  from url_never_committed_by_keyboard
         [OF refl, where e = sampleEnv and s = menuOpenState and ev = "plainKey ''ArrowUp''"]
    h5 h6 k2
  have a: "\<exists>option. js_nth (getContextMenuOptions sampleEnv (searchQuery menuOpenState)
                         (selectedType menuOpenState) (searchPaths (filePaths menuOpenState)))
                  (selectedMenuIndex (handleKeyDown sampleEnv menuOpenState (plainKey ''ArrowUp'')))
                = Some option
              \<and> otype option \<noteq> ''url''"
    by blast
  from h1 h2 h3 [symmetric] h4 h5 e a show ?thesis
    by simp
qed
subsection \<open>Paste\<close>

lemma js_split_no_separator: "sep \<notin> set s \<Longrightarrow> js_split sep s = [s]"
  by (induction s) auto

lemma js_split_first_piece:
  "sep \<notin> set t \<Longrightarrow> js_split sep (t @ sep # st) = t # js_split sep st"
  by (induction t) auto

lemma isImageItem_mime:
  assumes "itype item = t @ ''/'' @ st" and "CHR ''/'' \<notin> set t" and "CHR ''/'' \<notin> set st"
  shows "isImageItem item \<longleftrightarrow> t = ''image'' \<and> st \<in> {''png'', ''jpeg'', ''webp''}"
proof -
  have "js_split CHR ''/'' (itype item) = [t, st]"
    using assms by (simp add: js_split_first_piece js_split_no_separator)
  then show ?thesis
    by (auto simp: isImageItem_def acceptedTypes_def)
qed

lemma map_filter_readItem:
  "List.map_filter (\<lambda>dataUrl. dataUrl) (map readItem xs) = List.map_filter readItem xs"
  by (induction xs) (auto simp: List.map_filter_def)

text \<open>
  Claim C7. On a paste with images enabled, the entries that are read are those the
  filter accepts, in clipboard order; an entry whose type is \<open>t/st\<close> with one slash
  is accepted exactly when \<open>t\<close> is \<^verbatim>\<open>image\<close> and \<open>st\<close> is \<^verbatim>\<open>png\<close>, \<^verbatim>\<open>jpeg\<close> or
  \<^verbatim>\<open>webp\<close>. An entry without a file, with a reader error or with a result that is
  not a string is dropped. When at least one entry decodes, the attachment list
  becomes the first \<^verbatim>\<open>MAX_IMAGES_PER_MESSAGE\<close> elements of the old list followed by
  the decoded entries; when none does, the list is left as it is. With an old list
  within the cap both cases are the same truncation.
\<close>

theorem paste_ingests_accepted_images:
  assumes "\<not> shouldDisableImages s"
    and "decoded = List.map_filter readItem (filter isImageItem items)"
  shows "selectedImages (handlePaste e s items)
           = (if decoded = [] then selectedImages s
              else take (MAX_IMAGES_PER_MESSAGE e) (selectedImages s @ decoded))
         \<and> (length (selectedImages s) \<le> MAX_IMAGES_PER_MESSAGE e \<longrightarrow>
              selectedImages (handlePaste e s items)
                = take (MAX_IMAGES_PER_MESSAGE e) (selectedImages s @ decoded))
         \<and> (\<forall>item t st. itype item = t @ ''/'' @ st \<and> CHR ''/'' \<notin> set t \<and> CHR ''/'' \<notin> set st \<longrightarrow>
              (isImageItem item \<longleftrightarrow> t = ''image'' \<and> st \<in> {''png'', ''jpeg'', ''webp''}))
         \<and> (\<forall>item. readItem item
                     = (case getAsFile item of Some (ReadString r) \<Rightarrow> Some r | _ \<Rightarrow> None))"
proof -
  have a: "selectedImages (handlePaste e s items)
             = (if decoded = [] then selectedImages s
                else take (MAX_IMAGES_PER_MESSAGE e) (selectedImages s @ decoded))"
  proof (cases "filter isImageItem items = []")
    case True
    then have "decoded = []"
      using assms(2) by (simp add: List.map_filter_simps)
    then show ?thesis
      using True by (simp add: handlePaste_def Let_def)
  next
    case False
    then show ?thesis
      using assms by (simp add: handlePaste_def Let_def log_def map_filter_readItem)
  qed
  have b: "\<forall>item. readItem item
                   = (case getAsFile item of Some (ReadString r) \<Rightarrow> Some r | _ \<Rightarrow> None)"
    by (simp add: readItem_def split: option.splits read_result.splits)
  from a b isImageItem_mime show ?thesis
    by auto
qed

theorem paste_ingests_accepted_images_witness:
  "\<not> shouldDisableImages pasteState
   \<and> List.map_filter readItem (filter isImageItem pastedItems) = [''data:png'', ''data:webp'']
   \<and> selectedImages pasteState = [''old'']
   \<and> selectedImages (handlePaste (specEnv 2) pasteState pastedItems) = [''old'', ''data:png'']
   \<and> selectedImages (handlePaste (specEnv 20) pasteState pastedItems)
       = [''old'', ''data:png'', ''data:webp'']"
proof -
  have h1: "\<not> shouldDisableImages pasteState"
    and h2: "[''data:png'', ''data:webp''] = List.map_filter readItem (filter isImageItem pastedItems)"
    and h3: "selectedImages pasteState = [''old'']"
    and h4: "MAX_IMAGES_PER_MESSAGE (specEnv 2) = 2"
    and h5: "MAX_IMAGES_PER_MESSAGE (specEnv 20) = 20"
    by code_simp+
  from paste_ingests_accepted_images [OF h1 h2, of "specEnv 2"]
    paste_ingests_accepted_images [OF h1 h2, of "specEnv 20"] h1 h2 [symmetric] h3 h4 h5
  show ?thesis by simp
qed

subsection \<open>The category filter of a hidden menu\<close>

lemma commit_from_open:
  "showContextMenu s \<Longrightarrow> showContextMenu (commit s s') \<or> selectedType (commit s s') = None"
  by (simp add: commit_def menuEffect_def layoutEffect_def log_def
      split: option.splits prod.splits)

lemma commit_keeps_filter:
  "showContextMenu s' \<or> selectedType s' = None
   \<Longrightarrow> showContextMenu (commit s s') \<or> selectedType (commit s s') = None"
  by (auto simp: commit_def menuEffect_def layoutEffect_def log_def
      split: option.splits prod.splits)

lemma handleKeyDown_hidden:
  assumes "\<not> showContextMenu s"
  shows "selectedType (handleKeyDown e s k) = selectedType s"
  using assms
  by (auto simp: handleKeyDown_def backspace_def Let_def log_def split: option.splits prod.splits)

lemma handlePaste_filter:
  "selectedType (handlePaste e s items) = selectedType s
   \<and> showContextMenu (handlePaste e s items) = showContextMenu s"
  by (simp add: handlePaste_def Let_def log_def)

lemma handler_hidden:
  assumes "\<not> showContextMenu s" and "selectedType s = None"
  shows "showContextMenu (handler e s ev) \<or> selectedType (handler e s ev) = None"
proof (cases ev)
  case (KeyDown k)
  then show ?thesis using assms handleKeyDown_hidden [of s e k]
    by (simp add: handler_def)
next
  case (Paste items)
  then show ?thesis using assms handlePaste_filter [of e s items]
    by (simp add: handler_def)
qed (use assms in \<open>auto simp: handler_def handleKeyUp_def updateCursorPosition_def
       handleInputChange_def handleBlur_def handleClickOutside_def Let_def
       split: option.splits\<close>)

lemma step_keeps_filter:
  assumes "showContextMenu s \<or> selectedType s = None"
  shows "showContextMenu (step e s ev) \<or> selectedType (step e s ev) = None"
proof (cases "showContextMenu s")
  case True
  then show ?thesis unfolding step_def by (rule commit_from_open)
next
  case False
  with assms have "selectedType s = None" by simp
  with False have "showContextMenu (handler e s ev) \<or> selectedType (handler e s ev) = None"
    by (rule handler_hidden)
  then show ?thesis unfolding step_def by (rule commit_keeps_filter)
qed

lemma run_keeps_filter:
  "showContextMenu s \<or> selectedType s = None
   \<Longrightarrow> showContextMenu (run e s evs) \<or> selectedType (run e s evs) = None"
proof (induction evs arbitrary: s)
  case Nil
  then show ?case by (simp add: run_def)
next
  case (Cons ev evs)
  from Cons.prems have "showContextMenu (step e s ev) \<or> selectedType (step e s ev) = None"
    by (rule step_keeps_filter)
  then have "showContextMenu (run e (step e s ev) evs) \<or> selectedType (run e (step e s ev) evs) = None"
    by (rule Cons.IH)
  then show ?case by (simp add: run_def)
qed

text \<open>
  Claim C9. In every state the component reaches from its first render by any
  sequence of events, each followed by the effects of the render it causes, a hidden
  menu has no category filter.
\<close>

theorem hidden_menu_has_no_filter:
  assumes "\<not> showContextMenu (run e (initialState text images disableImages fps) evs)"
  shows "selectedType (run e (initialState text images disableImages fps) evs) = None"
proof -
  have "showContextMenu (initialState text images disableImages fps)
        \<or> selectedType (initialState text images disableImages fps) = None"
    by (simp add: initialState_def)
  then have "showContextMenu (run e (initialState text images disableImages fps) evs)
             \<or> selectedType (run e (initialState text images disableImages fps) evs) = None"
    by (rule run_keeps_filter)
  with assms show ?thesis by simp
qed

theorem hidden_menu_has_no_filter_witness:
  "selectedType (run sampleEnv (initialState [] [] False sampleFiles)
                   [InputChange ''@'' 1, MenuSelect ''file'' ''file'']) = Some ''file''
   \<and> \<not> showContextMenu (run sampleEnv (initialState [] [] False sampleFiles)
                          [InputChange ''@'' 1, MenuSelect ''file'' ''file'', BlurEvent])
   \<and> selectedType (run sampleEnv (initialState [] [] False sampleFiles)
                     [InputChange ''@'' 1, MenuSelect ''file'' ''file'', BlurEvent]) = None"
proof -
  have h0: "selectedType (run sampleEnv (initialState [] [] False sampleFiles)
                   [InputChange ''@'' 1, MenuSelect ''file'' ''file'']) = Some ''file''"
    by code_simp
  have h1: "\<not> showContextMenu (run sampleEnv (initialState [] [] False sampleFiles)
                          [InputChange ''@'' 1, MenuSelect ''file'' ''file'', BlurEvent])"
    by code_simp
  from hidden_menu_has_no_filter [OF h1] h0 h1 show ?thesis
    by simp
qed

end
